theory Spec2Isabelle
  imports Complex_Main "HOL-Library.AList"
begin

section \<open>NCL primitives\<close>

text \<open>
  A signal is a Python pair of ints \<open>(rail1, rail0)\<close>. The four pairs the editor
  produces are \<open>(0,0)\<close> (NULL), \<open>(1,0)\<close> (DATA1), \<open>(0,1)\<close> (DATA0) and \<open>(1,1)\<close>,
  but the type is any pair of unbounded integers, as in the source.
\<close>

type_synonym signal = "int \<times> int"

definition is_null :: "signal \<Rightarrow> bool" where
  "is_null sig \<longleftrightarrow> sig = (0, 0)"

definition is_data :: "signal \<Rightarrow> bool" where
  "is_data sig \<longleftrightarrow> sig \<noteq> (0, 0)"

text \<open>
  \<^verbatim>\<open>count = sum(1 for x in inputs if is_data(x)); return (1,0) if count >= m else (0,0)\<close>
\<close>

definition thmn :: "signal list \<Rightarrow> int \<Rightarrow> signal" where
  "thmn inputs m =
     (let count = (\<Sum>x\<leftarrow>filter is_data inputs. (1::int))
      in if count \<ge> m then (1, 0) else (0, 0))"

definition th22 :: "signal \<Rightarrow> signal \<Rightarrow> signal" where
  "th22 a b = thmn [a, b] 2"

definition th12 :: "signal \<Rightarrow> signal \<Rightarrow> signal" where
  "th12 a b = thmn [a, b] 1"

definition th23 :: "signal \<Rightarrow> signal \<Rightarrow> signal \<Rightarrow> signal" where
  "th23 a b c = thmn [a, b, c] 2"

section \<open>Circuits\<close>

text \<open>
  The dataclasses \<open>Gate\<close> and \<open>Circuit\<close>. Python dictionaries keep insertion order and
  the gate pass iterates in that order, so every dictionary is an association list:
  \<open>map_of\<close> is the lookup, \<open>AList.update\<close> is the assignment \<open>d[k] = v\<close> (it
  overwrites in place and appends a new key at the end). The field \<open>id\<close> of \<open>Gate\<close>
  is named \<open>gate_id\<close> and its field \<open>inputs\<close> is named \<open>gate_inputs\<close>. The delay is
  a float that no operation of the simulator reads.
\<close>

record Gate =
  gate_id :: string
  kind :: string
  gate_inputs :: "string list"
  delay :: real

type_synonym state = "(string \<times> signal) list"

record Circuit =
  inputs :: "(string \<times> signal) list"
  gates :: "(string \<times> Gate) list"
  outputs :: "(string \<times> string) list"

section \<open>Strings\<close>

text \<open>
  Characters are code points below 256. \<open>startswith\<close> is \<open>str.startswith\<close>;
  \<open>remove_THm\<close> is \<open>kind.replace("THm", "")\<close>, which deletes every occurrence of
  \<open>THm\<close> found in one scan from the left.
\<close>

definition startswith :: "string \<Rightarrow> string \<Rightarrow> bool" where
  "startswith s p \<longleftrightarrow> take (length p) s = p"

fun remove_THm :: "string \<Rightarrow> string" where
  "remove_THm (c1 # c2 # c3 # cs) =
     (if c1 = CHR ''T'' \<and> c2 = CHR ''H'' \<and> c3 = CHR ''m'' then remove_THm cs
      else c1 # remove_THm (c2 # c3 # cs))"
| "remove_THm cs = cs"

text \<open>
  Whitespace. \<open>str.strip()\<close> removes the code points 9 to 13, 28 to 32, 133 and 160
  (\<open>is_space\<close>, \<open>strip\<close>). \<open>int()\<close> skips fewer: 9 to 13, 32, 133 and 160, but
  not 28 to 31 (\<open>is_int_space\<close>, \<open>int_strip\<close>).
\<close>

definition is_space :: "char \<Rightarrow> bool" where
  "is_space c \<longleftrightarrow>
     (let n = (of_char c :: nat)
      in (9 \<le> n \<and> n \<le> 13) \<or> (28 \<le> n \<and> n \<le> 32) \<or> n = 133 \<or> n = 160)"

definition strip :: "string \<Rightarrow> string" where
  "strip s = rev (dropWhile is_space (rev (dropWhile is_space s)))"

definition is_int_space :: "char \<Rightarrow> bool" where
  "is_int_space c \<longleftrightarrow>
     (let n = (of_char c :: nat) in (9 \<le> n \<and> n \<le> 13) \<or> n = 32 \<or> n = 133 \<or> n = 160)"

definition int_strip :: "string \<Rightarrow> string" where
  "int_strip s = rev (dropWhile is_int_space (rev (dropWhile is_int_space s)))"

text \<open>
  Python's \<open>int(s)\<close> on a string, base 10. \<open>py_int\<close> is the grammar: the whitespace
  that \<open>int()\<close> skips is removed at both ends, one sign is allowed, then decimal
  digits follow, with single underscores allowed between two digits; among the code
  points below 256 the decimal digits are \<open>0\<close> to \<open>9\<close>. \<open>py_int_bounded\<close> is the
  call as the interpreter makes it: a text with more than 4300 digits (the default of
  \<open>sys.int_info.default_max_str_digits\<close>, which the source never changes) is refused
  whatever its form. Every refusal is a \<open>ValueError\<close>, the value \<open>None\<close> here.
\<close>

definition is_digit :: "char \<Rightarrow> bool" where
  "is_digit c \<longleftrightarrow> (let n = (of_char c :: nat) in 48 \<le> n \<and> n \<le> 57)"

definition digit_val :: "char \<Rightarrow> nat" where
  "digit_val c = (of_char c :: nat) - 48"

fun parse_digits :: "nat \<Rightarrow> string \<Rightarrow> nat option" where
  "parse_digits acc [] = Some acc"
| "parse_digits acc [c] = (if is_digit c then Some (10 * acc + digit_val c) else None)"
| "parse_digits acc (c # d # cs) =
     (if is_digit c then parse_digits (10 * acc + digit_val c) (d # cs)
      else if c = CHR ''_'' \<and> is_digit d then parse_digits acc (d # cs)
      else None)"

definition parse_unsigned :: "string \<Rightarrow> nat option" where
  "parse_unsigned s =
     (case s of [] \<Rightarrow> None
      | c # cs \<Rightarrow> if is_digit c then parse_digits 0 (c # cs) else None)"

definition py_int :: "string \<Rightarrow> int option" where
  "py_int s =
     (case int_strip s of
        [] \<Rightarrow> None
      | c # cs \<Rightarrow>
          if c = CHR ''-'' then map_option (\<lambda>n. - int n) (parse_unsigned cs)
          else if c = CHR ''+'' then map_option int (parse_unsigned cs)
          else map_option int (parse_unsigned (c # cs)))"

definition max_str_digits :: nat where
  "max_str_digits = 4300"

definition py_int_bounded :: "string \<Rightarrow> int option" where
  "py_int_bounded s =
     (if max_str_digits < length (filter is_digit s) then None else py_int s)"

section \<open>Gate evaluation\<close>

text \<open>
  The only exception the simulator can raise: \<open>th22(*sigs[:2])\<close> and its two siblings
  unpack a slice into a function of fixed arity, and Python raises \<open>TypeError\<close> when
  the slice is shorter than the parameter list.
\<close>

datatype error = TypeError

definition gather :: "string list \<Rightarrow> state \<Rightarrow> signal list" where
  "gather srcs state_signals =
     map (\<lambda>src. case map_of state_signals src of Some v \<Rightarrow> v | None \<Rightarrow> (0, 0)) srcs"

definition call_th22 :: "signal list \<Rightarrow> error + signal" where
  "call_th22 args = (case args of [a, b] \<Rightarrow> Inr (th22 a b) | _ \<Rightarrow> Inl TypeError)"

definition call_th12 :: "signal list \<Rightarrow> error + signal" where
  "call_th12 args = (case args of [a, b] \<Rightarrow> Inr (th12 a b) | _ \<Rightarrow> Inl TypeError)"

definition call_th23 :: "signal list \<Rightarrow> error + signal" where
  "call_th23 args = (case args of [a, b, c] \<Rightarrow> Inr (th23 a b c) | _ \<Rightarrow> Inl TypeError)"

definition evaluate_gate :: "Gate \<Rightarrow> state \<Rightarrow> error + signal" where
  "evaluate_gate g state_signals =
     (let sigs = gather (gate_inputs g) state_signals in
      if startswith (kind g) ''THm'' then
        (let m = (case py_int_bounded (remove_THm (kind g)) of
                    Some m \<Rightarrow> m
                  | None \<Rightarrow> max 1 (int (length sigs)))
         in Inr (thmn sigs m))
      else if kind g = ''TH22'' then call_th22 (take 2 sigs)
      else if kind g = ''TH12'' then call_th12 (take 2 sigs)
      else if kind g = ''TH23'' then call_th23 (take 3 sigs)
      else Inr (thmn sigs 1))"

section \<open>The wavefront simulation\<close>

text \<open>
  One pass of the \<open>for\<close> loop over \<open>circ.gates.items()\<close>. The previous value is
  \<open>state.get(gid, (None, None))\<close>; a gate output is a pair of ints, so it differs from
  the default exactly when the key is absent.
\<close>

fun gate_pass :: "(string \<times> Gate) list \<Rightarrow> state \<Rightarrow> bool \<Rightarrow> error + state \<times> bool" where
  "gate_pass [] state changed = Inr (state, changed)"
| "gate_pass ((gid, gate) # rest) state changed =
     (case evaluate_gate gate state of
        Inl e \<Rightarrow> Inl e
      | Inr out_sig \<Rightarrow>
          if map_of state gid \<noteq> Some out_sig
          then gate_pass rest (AList.update gid out_sig state) True
          else gate_pass rest state changed)"

text \<open>
  A snapshot is \<open>{"time": round(t, 3), "signals": dict(state)}\<close>. \<open>round3\<close> rounds
  to three decimals, ties to even. The time variable only takes the values
  \<open>0, 0.5, 1, \<dots>, 20\<close>, which binary floating point represents exactly, so the reals
  compute what the floats do.
\<close>

record snapshot =
  time :: real
  signals :: state

definition round3 :: "real \<Rightarrow> real" where
  "round3 x =
     (let y = x * 1000; f = \<lfloor>y\<rfloor>; r = y - of_int f
      in of_int (if r < 1 / 2 then f else if 1 / 2 < r then f + 1
                 else if even f then f else f + 1) / 1000)"

text \<open>
  The \<open>while changed and t < 20\<close> loop. The source appends each snapshot to
  \<open>st.session_state.wave_history\<close> and to a local list \<open>history\<close> that is never read;
  the model keeps the first. An exception leaves the loop with the snapshots appended so
  far; a normal exit returns the final state, time and flag.
\<close>

function sim_loop ::
  "(string \<times> Gate) list \<Rightarrow> state \<Rightarrow> snapshot list \<Rightarrow> real \<Rightarrow> bool \<Rightarrow>
     snapshot list \<times> (error + state \<times> real \<times> bool)" where
  "sim_loop gs state wave_history t changed =
     (if changed \<and> t < 20 then
        (let step_snapshot = \<lparr>time = round3 t, signals = state\<rparr>;
             wave_history' = wave_history @ [step_snapshot]
         in case gate_pass gs state False of
              Inl e \<Rightarrow> (wave_history', Inl e)
            | Inr (state', changed') \<Rightarrow> sim_loop gs state' wave_history' (t + 1 / 2) changed')
      else (wave_history, Inr (state, t, changed)))"
  by pat_completeness auto
termination
proof (relation "measure (\<lambda>(gs, state, wave_history, t, changed). nat \<lceil>(20 - t) * 2\<rceil>)")
  show "wf (measure (\<lambda>(gs, state, wave_history, t, changed). nat \<lceil>(20 - t) * 2\<rceil>))"
    by simp
next
  fix gs :: "(string \<times> Gate) list" and state :: state and wave_history :: "snapshot list"
    and t :: real and changed :: bool and x xa x2 xb y
  assume "changed \<and> t < 20"
  then have "0 < (20 - t) * 2" by simp
  then have "0 < \<lceil>(20 - t) * 2\<rceil>" by linarith
  moreover have "\<lceil>(20 - (t + 1 / 2)) * 2\<rceil> = \<lceil>(20 - t) * 2\<rceil> - 1"
  proof -
    have "(20 - (t + 1 / 2)) * 2 = (20 - t) * 2 - 1" by (simp add: algebra_simps)
    then show ?thesis by (simp only: ceiling_diff_one)
  qed
  ultimately show "((gs, xb, xa, t + 1 / 2, y), gs, state, wave_history, t, changed)
      \<in> measure (\<lambda>(gs, state, wave_history, t, changed). nat \<lceil>(20 - t) * 2\<rceil>)"
    by simp
qed

declare sim_loop.simps [simp del]

text \<open>
  The final output mapping:
  \<^verbatim>\<open>{out: state.get(src, state.get(src, (0,0))) for out, src in circ.outputs.items()}\<close>
\<close>

definition final_outputs :: "Circuit \<Rightarrow> state \<Rightarrow> (string \<times> signal) list" where
  "final_outputs circ state =
     map (\<lambda>(out, src). (out, case map_of state src of Some v \<Rightarrow> v | None \<Rightarrow> (0, 0)))
       (outputs circ)"

text \<open>
  The handler of the button "Run Step-by-Step Simulation". It works on the ambient
  session: it reads the circuit, resets the stored timeline, runs the loop and computes
  the final outputs. The timeline of the run is the \<open>wave_history\<close> of the session it
  leaves behind.
\<close>

record session =
  circuit :: Circuit
  wave_history :: "snapshot list"

definition run_simulation :: "session \<Rightarrow> session \<times> (error + (string \<times> signal) list)" where
  "run_simulation s =
     (let circ = circuit s;
          state = map (\<lambda>(k, v). (k, v)) (inputs circ);
          (history, r) = sim_loop (gates circ) state [] 0 True
      in (s\<lparr>wave_history := history\<rparr>,
          case r of
            Inl e \<Rightarrow> Inl e
          | Inr (state', t, changed) \<Rightarrow> Inr (final_outputs circ state')))"

section \<open>The editor's gate form\<close>

text \<open>
  The handler of the button "Add Gate". \<open>split_comma\<close> is \<open>inputs_raw.split(",")\<close>,
  \<open>str_int\<close> is the decimal text that an f-string gives an int, and \<open>format_m\<close> is
  \<open>f"{m}"\<close> for the threshold, which is \<open>None\<close> unless the chosen kind starts with
  \<open>CUSTOM\<close>. The handler stores the gate under its id in the circuit of the session.
\<close>

fun split_comma :: "string \<Rightarrow> string list" where
  "split_comma [] = [[]]"
| "split_comma (c # cs) =
     (if c = CHR '','' then [] # split_comma cs
      else (case split_comma cs of
              w # ws \<Rightarrow> (c # w) # ws
            | [] \<Rightarrow> [[c]]))"

fun str_nat :: "nat \<Rightarrow> string" where
  "str_nat n =
     (if n < 10 then [char_of (48 + n)]
      else str_nat (n div 10) @ [char_of (48 + n mod 10)])"

declare str_nat.simps [simp del]

definition str_int :: "int \<Rightarrow> string" where
  "str_int i = (if i < 0 then CHR ''-'' # str_nat (nat (- i)) else str_nat (nat i))"

definition format_m :: "int option \<Rightarrow> string" where
  "format_m m = (case m of None \<Rightarrow> ''None'' | Some i \<Rightarrow> str_int i)"

definition add_gate :: "string \<Rightarrow> string \<Rightarrow> int \<Rightarrow> string \<Rightarrow> real \<Rightarrow> session \<Rightarrow> session" where
  "add_gate gkind gid m_input inputs_raw gdelay s =
     (let m = (if startswith gkind ''CUSTOM'' then Some m_input else None);
          input_list = map strip (filter (\<lambda>x. strip x \<noteq> []) (split_comma inputs_raw));
          kindname = (if gkind = ''CUSTOM - THmn'' then ''THm'' @ format_m m else gkind);
          g = \<lparr>gate_id = gid, kind = kindname, gate_inputs = input_list, delay = gdelay\<rparr>
      in s\<lparr>circuit := (circuit s)\<lparr>gates := AList.update gid g (gates (circuit s))\<rparr>\<rparr>)"

section \<open>Circuits used as test inputs\<close>

text \<open>
  The circuit that the button "Load Example" builds (its second delay is the float
  \<open>1.2\<close>, which nothing reads), the empty workspace, and a ring of three pass-through
  gates whose names are also input names, which never settles.
\<close>

definition example_circuit :: Circuit where
  "example_circuit =
     \<lparr>inputs = [(''A'', (1, 0)), (''B'', (0, 1))],
      gates =
        [(''G1'', \<lparr>gate_id = ''G1'', kind = ''TH12'', gate_inputs = [''A'', ''B''], delay = 1\<rparr>),
         (''G2'', \<lparr>gate_id = ''G2'', kind = ''TH22'', gate_inputs = [''A'', ''B''],
                   delay = 12 / 10\<rparr>)],
      outputs = [(''OUT'', ''G2'')]\<rparr>"

definition empty_session :: session where
  "empty_session =
     \<lparr>circuit = \<lparr>inputs = [], gates = [], outputs = []\<rparr>, wave_history = []\<rparr>"

definition ring_circuit :: Circuit where
  "ring_circuit =
     \<lparr>inputs = [(''X'', (0, 0)), (''Y'', (1, 0)), (''Z'', (0, 0))],
      gates =
        [(''X'', \<lparr>gate_id = ''X'', kind = ''THm1'', gate_inputs = [''Y''], delay = 1\<rparr>),
         (''Y'', \<lparr>gate_id = ''Y'', kind = ''THm1'', gate_inputs = [''Z''], delay = 1\<rparr>),
         (''Z'', \<lparr>gate_id = ''Z'', kind = ''THm1'', gate_inputs = [''X''], delay = 1\<rparr>)],
      outputs = [(''OUT'', ''Z'')]\<rparr>"

text \<open>
  Five gates in a chain, for the order of evaluation inside one pass.
\<close>

definition chain_G0 :: Gate where
  "chain_G0 = \<lparr>gate_id = ''G0'', kind = ''TH12'', gate_inputs = [''A'', ''A''], delay = 1\<rparr>"

definition chain_G1 :: Gate where
  "chain_G1 = \<lparr>gate_id = ''G1'', kind = ''THm1'', gate_inputs = [''G0''], delay = 1\<rparr>"

definition chain_GM :: Gate where
  "chain_GM = \<lparr>gate_id = ''GM'', kind = ''THm1'', gate_inputs = [''A''], delay = 1\<rparr>"

definition chain_G2 :: Gate where
  "chain_G2 = \<lparr>gate_id = ''G2'', kind = ''THm1'', gate_inputs = [''G1''], delay = 1\<rparr>"

definition chain_G3 :: Gate where
  "chain_G3 = \<lparr>gate_id = ''G3'', kind = ''THm1'', gate_inputs = [''G2''], delay = 1\<rparr>"

section \<open>The loop invariant\<close>

text \<open>
  What holds of the result of the loop when it is entered with the timeline \<open>wh\<close>:
  the timeline only grows, to at most 40 snapshots, the new snapshots carry the times
  \<open>i / 2\<close> of their positions, an exception is one that a gate evaluation raised, and a
  normal exit happens with the flag cleared or with the time at 20.
\<close>

definition loop_post ::
  "(string \<times> Gate) list \<Rightarrow> snapshot list \<Rightarrow> snapshot list \<times> (error + state \<times> real \<times> bool) \<Rightarrow> bool" where
  "loop_post gs wh res \<longleftrightarrow>
     (let wh' = fst res in
      length wh \<le> length wh' \<and> length wh' \<le> 40 \<and> take (length wh) wh' = wh
      \<and> map time (drop (length wh) wh') = map (\<lambda>i. real i / 2) [length wh..<length wh']
      \<and> (case snd res of
           Inl e \<Rightarrow> \<exists>g st'. g \<in> snd ` set gs \<and> evaluate_gate g st' = Inl e
         | Inr (st', t', ch') \<Rightarrow>
             t' = real (length wh') / 2 \<and> (\<not> ch' \<or> t' = 20)))"

section \<open>Threshold gates\<close>

lemma count_ones: "(\<Sum>x\<leftarrow>xs. (1::int)) = int (length xs)"
  by (induction xs) simp_all

text \<open>
  Claim C2. For every list of signals and every integer \<open>m\<close>, \<open>thmn\<close> returns
  \<open>(1,0)\<close> if at least \<open>m\<close> of the signals are DATA and \<open>(0,0)\<close> otherwise; on the
  empty list it returns \<open>(0,0)\<close> for every \<open>m \<ge> 1\<close>.
\<close>

theorem thmn_characterization:
  "thmn sigs m = (if m \<le> int (length (filter is_data sigs)) then (1, 0) else (0, 0))
   \<and> (1 \<le> m \<longrightarrow> thmn [] m = (0, 0))"
  by (simp add: thmn_def count_ones)

theorem thmn_characterization_witness:
  "(1::int) \<le> 1 \<and> thmn [] 1 = (0, 0)
   \<and> thmn [(1, 0), (0, 0), (0, 1)] 2 = (1, 0) \<and> thmn [(1, 0), (0, 0), (0, 1)] 3 = (0, 0)"
  using thmn_characterization [of "[]" 1] thmn_characterization [of "[(1, 0), (0, 0), (0, 1)]" 2]
    thmn_characterization [of "[(1, 0), (0, 0), (0, 1)]" 3]
  by (simp add: is_data_def)

section \<open>Gate evaluation\<close>

lemma call_th22_take:
  "call_th22 (take 2 xs) = (case xs of a # b # _ \<Rightarrow> Inr (th22 a b) | _ \<Rightarrow> Inl TypeError)"
  by (simp add: call_th22_def split: list.splits)

lemma call_th12_take:
  "call_th12 (take 2 xs) = (case xs of a # b # _ \<Rightarrow> Inr (th12 a b) | _ \<Rightarrow> Inl TypeError)"
  by (simp add: call_th12_def split: list.splits)

lemma call_th23_take:
  "call_th23 (take 3 xs) =
     (case xs of a # b # c # _ \<Rightarrow> Inr (th23 a b c) | _ \<Rightarrow> Inl TypeError)"
  by (simp add: call_th23_def split: list.splits)

lemma length_gather: "length (gather srcs st) = length srcs"
  by (simp add: gather_def)

lemma short2: "(case xs of a # b # _ \<Rightarrow> Inr (f a b) | _ \<Rightarrow> Inl e) = Inl e' \<longleftrightarrow> length xs < 2 \<and> e' = e"
  by (auto split: list.splits)

lemma short3:
  "(case xs of a # b # c # _ \<Rightarrow> Inr (f a b c) | _ \<Rightarrow> Inl e) = Inl e' \<longleftrightarrow> length xs < 3 \<and> e' = e"
  by (auto split: list.splits)

lemma evaluate_gate_error:
  "evaluate_gate g st = Inl e \<longleftrightarrow>
     (kind g = ''TH22'' \<or> kind g = ''TH12'') \<and> length (gate_inputs g) < 2
     \<or> kind g = ''TH23'' \<and> length (gate_inputs g) < 3"
proof -
  have e: "e = TypeError" by (cases e)
  show ?thesis
    unfolding evaluate_gate_def Let_def call_th22_take call_th12_take call_th23_take
    by (auto simp: short2 short3 length_gather startswith_def e)
qed

lemma remove_THm_plain: "CHR ''T'' \<notin> set s \<Longrightarrow> remove_THm s = s"
  by (induction s rule: remove_THm.induct) auto

lemma gather_update_absent:
  "map_of st src = None \<Longrightarrow> gather srcs (AList.update src (0, 0) st) = gather srcs st"
  by (simp add: gather_def update_conv')

text \<open>
  Claim C4. An input reference that is not a key of the state contributes \<open>(0,0)\<close> to
  the gathered signals, and the gate evaluates exactly as it would if the state held
  NULL under that name, so the missing name itself never raises. In the same way an
  output whose source is not a key of the final state is reported as \<open>(0,0)\<close>.
\<close>

theorem unresolved_reference_is_null:
  "(\<forall>i < length srcs. map_of st (srcs ! i) = None \<longrightarrow> gather srcs st ! i = (0, 0))
   \<and> (map_of st src = None \<longrightarrow>
        evaluate_gate g st = evaluate_gate g (AList.update src (0, 0) st))
   \<and> (\<forall>i < length (outputs circ). map_of st (snd (outputs circ ! i)) = None \<longrightarrow>
        final_outputs circ st ! i = (fst (outputs circ ! i), (0, 0)))"
  by (simp add: gather_def evaluate_gate_def gather_update_absent [unfolded gather_def]
      final_outputs_def case_prod_beta)

theorem unresolved_reference_is_null_witness:
  "(1::nat) < length [''A'', ''B'']
   \<and> map_of ([(''A'', (1, 0))] :: state) ([''A'', ''B''] ! 1) = None
   \<and> gather [''A'', ''B''] [(''A'', (1, 0))] ! 1 = (0, 0)
   \<and> map_of ([(''A'', (1, 0))] :: state) ''B'' = None
   \<and> evaluate_gate
        \<lparr>gate_id = ''G1'', kind = ''TH12'', gate_inputs = [''A'', ''B''], delay = 1\<rparr>
        [(''A'', (1, 0))] =
      evaluate_gate
        \<lparr>gate_id = ''G1'', kind = ''TH12'', gate_inputs = [''A'', ''B''], delay = 1\<rparr>
        (AList.update ''B'' (0, 0) [(''A'', (1, 0))])
   \<and> (0::nat) < length (outputs example_circuit)
   \<and> map_of ([(''A'', (1, 0))] :: state) (snd (outputs example_circuit ! 0)) = None
   \<and> final_outputs example_circuit [(''A'', (1, 0))] ! 0 = (''OUT'', (0, 0))"
proof -
  note t = unresolved_reference_is_null [of "[''A'', ''B'']" "[(''A'', (1, 0))]" "''B''"
      "\<lparr>gate_id = ''G1'', kind = ''TH12'', gate_inputs = [''A'', ''B''], delay = 1\<rparr>"
      example_circuit]
  have h1: "(1::nat) < length [''A'', ''B'']" by simp
  have h2: "map_of ([(''A'', (1, 0))] :: state) ([''A'', ''B''] ! 1) = None" by simp
  have h3: "map_of ([(''A'', (1, 0))] :: state) ''B'' = None" by simp
  have h4: "(0::nat) < length (outputs example_circuit)" by (simp add: example_circuit_def)
  have h5: "map_of ([(''A'', (1, 0))] :: state) (snd (outputs example_circuit ! 0)) = None"
    by (simp add: example_circuit_def)
  have o: "fst (outputs example_circuit ! 0) = ''OUT''" by (simp add: example_circuit_def)
  have c1: "gather [''A'', ''B''] [(''A'', (1, 0))] ! 1 = (0, 0)"
    by (rule t [THEN conjunct1, rule_format, OF h1 h2])
  have c2: "evaluate_gate
        \<lparr>gate_id = ''G1'', kind = ''TH12'', gate_inputs = [''A'', ''B''], delay = 1\<rparr>
        [(''A'', (1, 0))] =
      evaluate_gate
        \<lparr>gate_id = ''G1'', kind = ''TH12'', gate_inputs = [''A'', ''B''], delay = 1\<rparr>
        (AList.update ''B'' (0, 0) [(''A'', (1, 0))])"
    by (rule t [THEN conjunct2, THEN conjunct1, rule_format, OF h3])
  have "final_outputs example_circuit [(''A'', (1, 0))] ! 0 =
      (fst (outputs example_circuit ! 0), (0, 0))"
    by (rule t [THEN conjunct2, THEN conjunct2, rule_format, OF h4 h5])
  then have c3: "final_outputs example_circuit [(''A'', (1, 0))] ! 0 = (''OUT'', (0, 0))"
    by (simp only: o)
  show ?thesis
    by (intro conjI) (rule h1 h2 c1 h3 c2 h4 h5 c3)+
qed

text \<open>
  Claim C10. A TH22 or TH12 gate with more than two input references, and a TH23 gate
  with more than three, is evaluated on the first two (three) gathered signals only:
  the result is the threshold function of that prefix, and it is the result of the same
  gate with the remaining references removed.
\<close>

theorem fixed_kind_truncation:
  "(kind g = ''TH22'' \<and> 2 < length (gate_inputs g) \<longrightarrow>
      evaluate_gate g st = Inr (thmn (take 2 (gather (gate_inputs g) st)) 2)
      \<and> evaluate_gate g st = evaluate_gate (g\<lparr>gate_inputs := take 2 (gate_inputs g)\<rparr>) st)
   \<and> (kind g = ''TH12'' \<and> 2 < length (gate_inputs g) \<longrightarrow>
      evaluate_gate g st = Inr (thmn (take 2 (gather (gate_inputs g) st)) 1)
      \<and> evaluate_gate g st = evaluate_gate (g\<lparr>gate_inputs := take 2 (gate_inputs g)\<rparr>) st)
   \<and> (kind g = ''TH23'' \<and> 3 < length (gate_inputs g) \<longrightarrow>
      evaluate_gate g st = Inr (thmn (take 3 (gather (gate_inputs g) st)) 2)
      \<and> evaluate_gate g st = evaluate_gate (g\<lparr>gate_inputs := take 3 (gate_inputs g)\<rparr>) st)"
proof -
  have tk: "gather (take n srcs) st = take n (gather srcs st)" for n srcs
    by (simp add: gather_def take_map)
  have c22: "call_th22 (take 2 xs) = Inr (thmn (take 2 xs) 2)" if "2 \<le> length xs" for xs
    using that by (auto simp: call_th22_take th22_def split: list.splits)
  have c12: "call_th12 (take 2 xs) = Inr (thmn (take 2 xs) 1)" if "2 \<le> length xs" for xs
    using that by (auto simp: call_th12_take th12_def split: list.splits)
  have c23: "call_th23 (take 3 xs) = Inr (thmn (take 3 xs) 2)" if "3 \<le> length xs" for xs
    using that by (auto simp: call_th23_take th23_def split: list.splits)
  show ?thesis
    by (simp add: evaluate_gate_def startswith_def tk c22 c12 c23 length_gather)
qed

theorem fixed_kind_truncation_witness:
  "kind \<lparr>gate_id = ''G1'', kind = ''TH22'', gate_inputs = [''A'', ''B'', ''C''], delay = 1\<rparr> = ''TH22''
   \<and> 2 < length (gate_inputs
        \<lparr>gate_id = ''G1'', kind = ''TH22'', gate_inputs = [''A'', ''B'', ''C''], delay = 1\<rparr>)
   \<and> evaluate_gate
        \<lparr>gate_id = ''G1'', kind = ''TH22'', gate_inputs = [''A'', ''B'', ''C''], delay = 1\<rparr>
        [(''A'', (1, 0)), (''C'', (0, 1))] = Inr (0, 0)
   \<and> kind \<lparr>gate_id = ''G2'', kind = ''TH12'', gate_inputs = [''A'', ''B'', ''C''], delay = 1\<rparr> = ''TH12''
   \<and> 2 < length (gate_inputs
        \<lparr>gate_id = ''G2'', kind = ''TH12'', gate_inputs = [''A'', ''B'', ''C''], delay = 1\<rparr>)
   \<and> evaluate_gate
        \<lparr>gate_id = ''G2'', kind = ''TH12'', gate_inputs = [''A'', ''B'', ''C''], delay = 1\<rparr>
        [(''C'', (0, 1))] = Inr (0, 0)
   \<and> kind \<lparr>gate_id = ''G3'', kind = ''TH23'', gate_inputs = [''A'', ''B'', ''C'', ''D''], delay = 1\<rparr>
        = ''TH23''
   \<and> 3 < length (gate_inputs
        \<lparr>gate_id = ''G3'', kind = ''TH23'', gate_inputs = [''A'', ''B'', ''C'', ''D''], delay = 1\<rparr>)
   \<and> evaluate_gate
        \<lparr>gate_id = ''G3'', kind = ''TH23'', gate_inputs = [''A'', ''B'', ''C'', ''D''], delay = 1\<rparr>
        [(''A'', (1, 0)), (''D'', (0, 1))] = Inr (0, 0)"
  using
    fixed_kind_truncation [of
      "\<lparr>gate_id = ''G1'', kind = ''TH22'', gate_inputs = [''A'', ''B'', ''C''], delay = 1\<rparr>"
      "[(''A'', (1, 0)), (''C'', (0, 1))]"]
    fixed_kind_truncation [of
      "\<lparr>gate_id = ''G2'', kind = ''TH12'', gate_inputs = [''A'', ''B'', ''C''], delay = 1\<rparr>"
      "[(''C'', (0, 1))]"]
    fixed_kind_truncation [of
      "\<lparr>gate_id = ''G3'', kind = ''TH23'', gate_inputs = [''A'', ''B'', ''C'', ''D''], delay = 1\<rparr>"
      "[(''A'', (1, 0)), (''D'', (0, 1))]"]
  by (simp add: gather_def thmn_def is_data_def)

text \<open>
  Claim C9, as stated, fails. The kind \<open>THmTHm2\<close> starts with \<open>THm\<close> and what follows
  that prefix, \<open>THm2\<close>, is not an integer; but the source deletes every occurrence of
  \<open>THm\<close> before parsing, so the threshold is 2 and not the number of inputs. With
  three inputs of which two are DATA the gate fires, where the threshold
  \<open>max(1, 3)\<close> would give NULL.
\<close>

theorem malformed_kind_counterexample:
  "startswith ''THmTHm2'' ''THm'' \<and> py_int_bounded (drop 3 ''THmTHm2'') = None
   \<and> evaluate_gate
        \<lparr>gate_id = ''G1'', kind = ''THmTHm2'', gate_inputs = [''A'', ''B'', ''C''], delay = 1\<rparr>
        [(''A'', (1, 0)), (''B'', (1, 0))] = Inr (1, 0)
   \<and> thmn (gather [''A'', ''B'', ''C''] [(''A'', (1, 0)), (''B'', (1, 0))])
        (max 1 (int (length (gather [''A'', ''B'', ''C''] [(''A'', (1, 0)), (''B'', (1, 0))]))))
      = (0, 0)"
  by code_simp

text \<open>
  Claim C9, amended. For every gate whose kind starts with \<open>THm\<close> and whose kind with
  every occurrence of \<open>THm\<close> deleted does not parse as an integer (\<open>int()\<close> refuses
  it, for its form or for its number of digits), the evaluation does not raise: it is
  the threshold function of the gathered signals with the threshold \<open>max(1, n)\<close>,
  \<open>n\<close> the number of gathered inputs.
\<close>

theorem malformed_kind_fallback:
  assumes "startswith (kind g) ''THm''" and "py_int_bounded (remove_THm (kind g)) = None"
  shows "evaluate_gate g st =
           Inr (thmn (gather (gate_inputs g) st) (max 1 (int (length (gate_inputs g)))))"
  using assms by (simp add: evaluate_gate_def length_gather)

text \<open>
  Three kinds that take the fallback: one with a letter after the prefix, one with the
  code point 31 before the digit (which \<open>str.strip()\<close> would remove and \<open>int()\<close>
  does not), and one with 4301 digits.
\<close>

theorem malformed_kind_fallback_witness:
  "startswith (kind \<lparr>gate_id = ''G1'', kind = ''THmx'', gate_inputs = [''A'', ''B''], delay = 1\<rparr>)
      ''THm''
   \<and> py_int_bounded (remove_THm
        (kind \<lparr>gate_id = ''G1'', kind = ''THmx'', gate_inputs = [''A'', ''B''], delay = 1\<rparr>)) = None
   \<and> evaluate_gate \<lparr>gate_id = ''G1'', kind = ''THmx'', gate_inputs = [''A'', ''B''], delay = 1\<rparr>
        [(''A'', (1, 0)), (''B'', (0, 1))] = Inr (1, 0)
   \<and> evaluate_gate \<lparr>gate_id = ''G1'', kind = ''THmx'', gate_inputs = [''A'', ''B''], delay = 1\<rparr>
        [(''A'', (1, 0))] = Inr (0, 0)
   \<and> startswith
        (kind \<lparr>gate_id = ''G2'', kind = ''THm'' @ [char_of (31 :: nat)] @ ''2'',
               gate_inputs = [''A'', ''B'', ''C''], delay = 1\<rparr>) ''THm''
   \<and> py_int_bounded (remove_THm
        (kind \<lparr>gate_id = ''G2'', kind = ''THm'' @ [char_of (31 :: nat)] @ ''2'',
               gate_inputs = [''A'', ''B'', ''C''], delay = 1\<rparr>)) = None
   \<and> evaluate_gate
        \<lparr>gate_id = ''G2'', kind = ''THm'' @ [char_of (31 :: nat)] @ ''2'',
          gate_inputs = [''A'', ''B'', ''C''], delay = 1\<rparr>
        [(''A'', (1, 0)), (''B'', (1, 0))] = Inr (0, 0)
   \<and> startswith
        (kind \<lparr>gate_id = ''G3'', kind = ''THm'' @ replicate 4301 CHR ''1'',
               gate_inputs = [''A''], delay = 1\<rparr>) ''THm''
   \<and> py_int_bounded (remove_THm
        (kind \<lparr>gate_id = ''G3'', kind = ''THm'' @ replicate 4301 CHR ''1'',
               gate_inputs = [''A''], delay = 1\<rparr>)) = None
   \<and> evaluate_gate
        \<lparr>gate_id = ''G3'', kind = ''THm'' @ replicate 4301 CHR ''1'',
          gate_inputs = [''A''], delay = 1\<rparr>
        [(''A'', (1, 0))] = Inr (1, 0)"
proof -
  let ?g = "\<lparr>gate_id = ''G1'', kind = ''THmx'', gate_inputs = [''A'', ''B''], delay = 1\<rparr>"
  let ?g2 = "\<lparr>gate_id = ''G2'', kind = ''THm'' @ [char_of (31 :: nat)] @ ''2'',
               gate_inputs = [''A'', ''B'', ''C''], delay = 1\<rparr>"
  let ?g3 = "\<lparr>gate_id = ''G3'', kind = ''THm'' @ replicate 4301 CHR ''1'',
               gate_inputs = [''A''], delay = 1\<rparr>"
  have h1: "startswith (kind ?g) ''THm''" by (simp add: startswith_def)
  have h2: "py_int_bounded (remove_THm (kind ?g)) = None" by code_simp
  have g1: "thmn (gather (gate_inputs ?g) [(''A'', (1, 0)), (''B'', (0, 1))])
              (max 1 (int (length (gate_inputs ?g)))) = (1, 0)"
    by (simp add: gather_def thmn_def is_data_def)
  have g2: "thmn (gather (gate_inputs ?g) [(''A'', (1, 0))])
              (max 1 (int (length (gate_inputs ?g)))) = (0, 0)"
    by (simp add: gather_def thmn_def is_data_def)
  from malformed_kind_fallback [OF h1 h2, of "[(''A'', (1, 0)), (''B'', (0, 1))]"] g1
  have c1: "evaluate_gate ?g [(''A'', (1, 0)), (''B'', (0, 1))] = Inr (1, 0)" by simp
  from malformed_kind_fallback [OF h1 h2, of "[(''A'', (1, 0))]"] g2
  have c2: "evaluate_gate ?g [(''A'', (1, 0))] = Inr (0, 0)" by simp
  have h3: "startswith (kind ?g2) ''THm''" by (simp add: startswith_def)
  have h4: "py_int_bounded (remove_THm (kind ?g2)) = None" by code_simp
  have g3: "thmn (gather (gate_inputs ?g2) [(''A'', (1, 0)), (''B'', (1, 0))])
              (max 1 (int (length (gate_inputs ?g2)))) = (0, 0)"
    by (simp add: gather_def thmn_def is_data_def)
  from malformed_kind_fallback [OF h3 h4, of "[(''A'', (1, 0)), (''B'', (1, 0))]"] g3
  have c3: "evaluate_gate ?g2 [(''A'', (1, 0)), (''B'', (1, 0))] = Inr (0, 0)" by simp
  have h5: "startswith (kind ?g3) ''THm''" by (simp add: startswith_def)
  have ones: "remove_THm (replicate 4301 CHR ''1'') = replicate 4301 CHR ''1''"
    by (rule remove_THm_plain) simp
  have "length (filter is_digit (replicate 4301 CHR ''1'')) = 4301"
    by (simp add: is_digit_def)
  then have h6: "py_int_bounded (remove_THm (kind ?g3)) = None"
    by (simp add: ones py_int_bounded_def max_str_digits_def)
  have g4: "thmn (gather (gate_inputs ?g3) [(''A'', (1, 0))])
              (max 1 (int (length (gate_inputs ?g3)))) = (1, 0)"
    by (simp add: gather_def thmn_def is_data_def)
  from malformed_kind_fallback [OF h5 h6, of "[(''A'', (1, 0))]"] g4
  have c4: "evaluate_gate ?g3 [(''A'', (1, 0))] = Inr (1, 0)" by simp
  show ?thesis
    by (intro conjI) (rule h1 h2 c1 c2 h3 h4 c3 h5 h6 c4)+
qed

section \<open>The gate pass\<close>

lemma gate_pass_append:
  "gate_pass (xs @ ys) st ch =
     (case gate_pass xs st ch of Inl e \<Rightarrow> Inl e | Inr (st', ch') \<Rightarrow> gate_pass ys st' ch')"
  by (induction xs st ch rule: gate_pass.induct) (auto split: sum.splits)

lemma gate_pass_unchanged:
  "gate_pass gs st ch = Inr (st', False) \<Longrightarrow> st' = st \<and> \<not> ch"
  by (induction gs st ch rule: gate_pass.induct) (auto split: sum.splits if_splits)

lemma gate_pass_error:
  "gate_pass gs st ch = Inl e \<Longrightarrow> \<exists>g st'. g \<in> snd ` set gs \<and> evaluate_gate g st' = Inl e"
proof (induction gs st ch rule: gate_pass.induct)
  case (1 state changed)
  then show ?case by simp
next
  case (2 gid gate rest state changed)
  show ?case
  proof (cases "evaluate_gate gate state")
    case (Inl e')
    with "2.prems" have "evaluate_gate gate state = Inl e" by simp
    then show ?thesis by force
  next
    case (Inr out_sig)
    with "2.prems" "2.IH" [OF Inr]
    have "\<exists>g st'. g \<in> snd ` set rest \<and> evaluate_gate g st' = Inl e"
      by (simp split: if_splits)
    then show ?thesis by auto
  qed
qed

lemma gate_pass_split:
  assumes "gate_pass (xs @ ys) st ch = Inr r"
  obtains st' ch' where "gate_pass xs st ch = Inr (st', ch')" and "gate_pass ys st' ch' = Inr r"
  using assms by (auto simp: gate_pass_append split: sum.splits)

lemma gate_pass_keeps:
  "gate_pass gs st ch = Inr (st', ch') \<Longrightarrow> k \<notin> fst ` set gs \<Longrightarrow> map_of st' k = map_of st k"
proof (induction gs st ch rule: gate_pass.induct)
  case (1 state changed)
  then show ?case by simp
next
  case (2 gid gate rest state changed)
  from "2.prems" obtain out_sig where out: "evaluate_gate gate state = Inr out_sig"
    by (cases "evaluate_gate gate state") auto
  from "2.prems" have k: "k \<noteq> gid" "k \<notin> fst ` set rest" by auto
  show ?case
  proof (cases "map_of state gid \<noteq> Some out_sig")
    case True
    with "2.prems" out have "gate_pass rest (AList.update gid out_sig state) True = Inr (st', ch')"
      by simp
    from "2.IH"(1) [OF out True this k(2)] k(1) show ?thesis
      by (simp add: update_conv')
  next
    case False
    with "2.prems" out have "gate_pass rest state changed = Inr (st', ch')" by simp
    from "2.IH"(2) [OF out False this k(2)] show ?thesis .
  qed
qed

lemma gate_pass_single:
  assumes "gate_pass ((gid, gate) # rest) st ch = Inr r"
  obtains out_sig st' ch' where "evaluate_gate gate st = Inr out_sig"
    and "gate_pass [(gid, gate)] st ch = Inr (st', ch')"
    and "map_of st' gid = Some out_sig" and "gate_pass rest st' ch' = Inr r"
proof -
  from assms obtain out_sig where out: "evaluate_gate gate st = Inr out_sig"
    by (cases "evaluate_gate gate st") auto
  show ?thesis
  proof (cases "map_of st gid \<noteq> Some out_sig")
    case True
    with assms out show ?thesis
      by (intro that [of out_sig "AList.update gid out_sig st" True]) (simp_all add: update_conv')
  next
    case False
    with assms out show ?thesis
      by (intro that [of out_sig st ch]) simp_all
  qed
qed

text \<open>
  Claim C7. Gates are evaluated in the stored order against a state that is updated in
  place. If a pass over the gates completes, \<open>G1\<close> stands before \<open>G2\<close> and the gate
  names are distinct (they are the keys of a dictionary), then \<open>G2\<close> is evaluated in a
  state that holds under the name of \<open>G1\<close> the output that \<open>G1\<close> produced earlier in
  this same pass, and every reference of \<open>G2\<close> to \<open>G1\<close> gathers that output.
\<close>

theorem gauss_seidel:
  assumes pass: "gate_pass (pre @ (g1, G1) # mid @ (g2, G2) # post) st0 ch0 = Inr res"
    and keys: "distinct (map fst (pre @ (g1, G1) # mid @ (g2, G2) # post))"
  shows "\<exists>st1 ch1 out1 st2 ch2 out2.
           gate_pass pre st0 ch0 = Inr (st1, ch1)
         \<and> evaluate_gate G1 st1 = Inr out1
         \<and> gate_pass (pre @ (g1, G1) # mid) st0 ch0 = Inr (st2, ch2)
         \<and> map_of st2 g1 = Some out1
         \<and> evaluate_gate G2 st2 = Inr out2
         \<and> gate_pass ((g2, G2) # post) st2 ch2 = Inr res
         \<and> (\<forall>i < length (gate_inputs G2).
               gate_inputs G2 ! i = g1 \<longrightarrow> gather (gate_inputs G2) st2 ! i = out1)"
proof -
  from pass obtain st1 ch1 where p1: "gate_pass pre st0 ch0 = Inr (st1, ch1)"
    and r1: "gate_pass ((g1, G1) # mid @ (g2, G2) # post) st1 ch1 = Inr res"
    by (rule gate_pass_split)
  from r1 obtain out1 sta cha where e1: "evaluate_gate G1 st1 = Inr out1"
    and s1: "gate_pass [(g1, G1)] st1 ch1 = Inr (sta, cha)"
    and m1: "map_of sta g1 = Some out1"
    and r2: "gate_pass (mid @ (g2, G2) # post) sta cha = Inr res"
    by (rule gate_pass_single)
  from r2 obtain st2 ch2 where p2: "gate_pass mid sta cha = Inr (st2, ch2)"
    and r3: "gate_pass ((g2, G2) # post) st2 ch2 = Inr res"
    by (rule gate_pass_split)
  from keys have "g1 \<notin> fst ` set mid" by auto
  with p2 m1 have m2: "map_of st2 g1 = Some out1"
    by (simp add: gate_pass_keeps)
  from r3 obtain out2 where e2: "evaluate_gate G2 st2 = Inr out2"
    by (rule gate_pass_single)
  have whole: "gate_pass (pre @ (g1, G1) # mid) st0 ch0 = Inr (st2, ch2)"
  proof -
    have "gate_pass ((g1, G1) # mid) st1 ch1 = Inr (st2, ch2)"
      using gate_pass_append [of "[(g1, G1)]" mid st1 ch1] s1 p2 by simp
    then show ?thesis
      using gate_pass_append [of pre "(g1, G1) # mid" st0 ch0] p1 by simp
  qed
  have g: "\<forall>i < length (gate_inputs G2).
             gate_inputs G2 ! i = g1 \<longrightarrow> gather (gate_inputs G2) st2 ! i = out1"
    using m2 by (simp add: gather_def)
  from p1 e1 whole m2 e2 r3 g show ?thesis by blast
qed

theorem gauss_seidel_witness:
  "gate_pass
     ([(''G0'', chain_G0)] @ (''G1'', chain_G1) # [(''GM'', chain_GM)]
        @ (''G2'', chain_G2) # [(''G3'', chain_G3)])
     [(''A'', (1, 0))] False =
   Inr ([(''A'', (1, 0)), (''G0'', (1, 0)), (''G1'', (1, 0)), (''GM'', (1, 0)),
         (''G2'', (1, 0)), (''G3'', (1, 0))], True)
   \<and> distinct (map fst
        ([(''G0'', chain_G0)] @ (''G1'', chain_G1) # [(''GM'', chain_GM)]
           @ (''G2'', chain_G2) # [(''G3'', chain_G3)]))
   \<and> (\<exists>st1 ch1 out1 st2 ch2 out2.
         gate_pass [(''G0'', chain_G0)] [(''A'', (1, 0))] False = Inr (st1, ch1)
       \<and> evaluate_gate chain_G1 st1 = Inr out1
       \<and> gate_pass ([(''G0'', chain_G0)] @ (''G1'', chain_G1) # [(''GM'', chain_GM)])
           [(''A'', (1, 0))] False = Inr (st2, ch2)
       \<and> map_of st2 ''G1'' = Some out1
       \<and> evaluate_gate chain_G2 st2 = Inr out2
       \<and> gate_pass ((''G2'', chain_G2) # [(''G3'', chain_G3)]) st2 ch2 =
          Inr ([(''A'', (1, 0)), (''G0'', (1, 0)), (''G1'', (1, 0)), (''GM'', (1, 0)),
                (''G2'', (1, 0)), (''G3'', (1, 0))], True)
       \<and> (\<forall>i < length (gate_inputs chain_G2).
             gate_inputs chain_G2 ! i = ''G1'' \<longrightarrow>
             gather (gate_inputs chain_G2) st2 ! i = out1))"
proof -
  have hp: "gate_pass
     ([(''G0'', chain_G0)] @ (''G1'', chain_G1) # [(''GM'', chain_GM)]
        @ (''G2'', chain_G2) # [(''G3'', chain_G3)])
     [(''A'', (1, 0))] False =
   Inr ([(''A'', (1, 0)), (''G0'', (1, 0)), (''G1'', (1, 0)), (''GM'', (1, 0)),
         (''G2'', (1, 0)), (''G3'', (1, 0))], True)"
    by code_simp
  have hk: "distinct (map fst
        ([(''G0'', chain_G0)] @ (''G1'', chain_G1) # [(''GM'', chain_GM)]
           @ (''G2'', chain_G2) # [(''G3'', chain_G3)]))"
    by simp
  show ?thesis
    by (rule conjI [OF hp conjI [OF hk gauss_seidel [OF hp hk]]])
qed

section \<open>The simulation loop\<close>

lemma round3_half: "round3 (real n / 2) = real n / 2"
proof -
  have "real n / 2 * 1000 = of_int (int (500 * n))" by simp
  then show ?thesis
    unfolding round3_def Let_def by (simp only: floor_of_int) simp
qed

lemma sim_loop_exit:
  "\<not> (changed \<and> t < 20) \<Longrightarrow> sim_loop gs st wh t changed = (wh, Inr (st, t, changed))"
  by (subst sim_loop.simps) (simp only: if_False)

lemma sim_loop_raise:
  "changed \<Longrightarrow> t < 20 \<Longrightarrow> gate_pass gs st False = Inl e \<Longrightarrow>
     sim_loop gs st wh t changed = (wh @ [\<lparr>time = round3 t, signals = st\<rparr>], Inl e)"
  by (subst sim_loop.simps) (simp add: Let_def)

lemma sim_loop_step:
  "changed \<Longrightarrow> t < 20 \<Longrightarrow> gate_pass gs st False = Inr (st', ch') \<Longrightarrow>
     sim_loop gs st wh t changed =
       sim_loop gs st' (wh @ [\<lparr>time = round3 t, signals = st\<rparr>]) (t + 1 / 2) ch'"
  by (subst sim_loop.simps) (simp add: Let_def)

lemma sim_loop_post:
  "t = real (length wh) / 2 \<Longrightarrow> length wh \<le> 40 \<Longrightarrow> loop_post gs wh (sim_loop gs st wh t ch)"
proof (induction gs st wh t ch rule: sim_loop.induct)
  case (1 gs state wave_history t changed)
  show ?case
  proof (cases "changed \<and> t < 20")
    case False
    with "1.prems" have "\<not> changed \<or> t = 20" by auto
    with False "1.prems" show ?thesis
      by (simp add: sim_loop_exit loop_post_def)
  next
    case True
    with "1.prems" have len: "length wave_history < 40" by simp
    let ?wh = "wave_history @ [\<lparr>time = round3 t, signals = state\<rparr>]"
    have rt: "round3 t = real (length wave_history) / 2"
      unfolding "1.prems"(1) by (rule round3_half)
    show ?thesis
    proof (cases "gate_pass gs state False")
      case (Inl e)
      have "sim_loop gs state wave_history t changed = (?wh, Inl e)"
        using True Inl by (simp add: sim_loop_raise)
      with len rt gate_pass_error [OF Inl] show ?thesis
        by (simp add: loop_post_def)
    next
      case (Inr p)
      obtain state' changed' where p: "p = (state', changed')" by (cases p)
      have eq: "sim_loop gs state wave_history t changed =
                  sim_loop gs state' ?wh (t + 1 / 2) changed'"
        using True Inr p by (simp add: sim_loop_step)
      have t': "t + 1 / 2 = real (length ?wh) / 2"
        using "1.prems" by (simp add: add_divide_distrib)
      have len': "length ?wh \<le> 40" using len by simp
      have IH: "loop_post gs ?wh (sim_loop gs state' ?wh (t + 1 / 2) changed')"
        using "1.IH" [OF True refl refl Inr p [symmetric] t' len'] .
      define res where "res = fst (sim_loop gs state' ?wh (t + 1 / 2) changed')"
      define n where "n = length wave_history"
      from IH have le: "Suc n \<le> length res" and le40: "length res \<le> 40"
        and tk: "take (Suc n) res = ?wh"
        and tm: "map time (drop (Suc n) res) = map (\<lambda>i. real i / 2) [Suc n..<length res]"
        by (simp_all add: loop_post_def Let_def res_def n_def)
      have nth: "res ! n = \<lparr>time = round3 t, signals = state\<rparr>"
      proof -
        have "res ! n = take (Suc n) res ! n" by simp
        also have "\<dots> = ?wh ! n" by (simp only: tk)
        finally show ?thesis by (simp add: n_def)
      qed
      have tk': "take n res = wave_history"
      proof -
        have "take n res = take n (take (Suc n) res)" by simp
        also have "\<dots> = take n ?wh" by (simp only: tk)
        finally show ?thesis by (simp add: n_def)
      qed
      have "drop n res = res ! n # drop (Suc n) res"
        using le by (simp add: Cons_nth_drop_Suc)
      then have tm': "map time (drop n res) = map (\<lambda>i. real i / 2) [n..<length res]"
        using le tm nth rt by (simp add: upt_conv_Cons n_def)
      show ?thesis
        unfolding eq using IH le le40 tk' tm'
        by (simp add: loop_post_def Let_def res_def [symmetric] n_def [symmetric])
    qed
  qed
qed

lemma sim_loop_stable:
  "snd (sim_loop gs st wh t ch) = Inr (st', t', False) \<Longrightarrow>
     ch \<or> gate_pass gs st False = Inr (st, False) \<Longrightarrow>
     gate_pass gs st' False = Inr (st', False)"
proof (induction gs st wh t ch rule: sim_loop.induct)
  case (1 gs state wave_history t changed)
  show ?case
  proof (cases "changed \<and> t < 20")
    case False
    with "1.prems" show ?thesis by (simp add: sim_loop_exit)
  next
    case True
    show ?thesis
    proof (cases "gate_pass gs state False")
      case (Inl e)
      with True "1.prems" show ?thesis by (simp add: sim_loop_raise)
    next
      case (Inr p)
      obtain state' changed' where p: "p = (state', changed')" by (cases p)
      let ?wh = "wave_history @ [\<lparr>time = round3 t, signals = state\<rparr>]"
      have eq: "sim_loop gs state wave_history t changed =
                  sim_loop gs state' ?wh (t + 1 / 2) changed'"
        using True Inr p by (simp add: sim_loop_step)
      have pre: "changed' \<or> gate_pass gs state' False = Inr (state', False)"
      proof (cases changed')
        case True
        then show ?thesis by simp
      next
        case False
        with Inr p have "gate_pass gs state False = Inr (state', False)" by simp
        with gate_pass_unchanged [OF this] show ?thesis by simp
      qed
      from "1.prems"(1) have "snd (sim_loop gs state' ?wh (t + 1 / 2) changed') = Inr (st', t', False)"
        by (simp only: eq)
      from "1.IH" [OF True refl refl Inr p [symmetric] this pre] show ?thesis .
    qed
  qed
qed

lemma sim_loop_nonempty:
  "length (fst (sim_loop gs st [] 0 True)) \<ge> 1"
proof (cases "gate_pass gs st False")
  case (Inl e)
  then show ?thesis by (simp add: sim_loop_raise)
next
  case (Inr p)
  obtain st' ch' where p: "p = (st', ch')" by (cases p)
  let ?wh = "[\<lparr>time = round3 0, signals = st\<rparr>]"
  have eq: "sim_loop gs st [] 0 True = sim_loop gs st' ?wh (0 + 1 / 2) ch'"
    using Inr p sim_loop_step [of True 0 gs st st' ch' "[]"] by simp
  have "loop_post gs ?wh (sim_loop gs st' ?wh (0 + 1 / 2) ch')"
    by (rule sim_loop_post) simp_all
  then show ?thesis unfolding eq by (simp add: loop_post_def Let_def)
qed

text \<open>
  What the loop does on every circuit. It is a total function, so every run ends. The
  timeline holds between 1 and 40 snapshots, one per pass, stamped \<open>0, 0.5, 1, \<dots>\<close>.
  The loop is left in one of three ways: with the change flag cleared, and then a pass
  over the final state changes nothing; with the time at 20; or by an exception that a
  gate evaluation raised. Reaching the bound is not an error.
\<close>

lemma sim_loop_bounded:
  assumes "sim_loop (gates (circuit s)) (inputs (circuit s)) [] 0 True = (wh, r)"
  shows "wave_history (fst (run_simulation s)) = wh
     \<and> 1 \<le> length wh \<and> length wh \<le> 40
     \<and> map time wh = map (\<lambda>i. real i / 2) [0..<length wh]
     \<and> (case r of
          Inl e \<Rightarrow>
            snd (run_simulation s) = Inl e
            \<and> (\<exists>g st. g \<in> snd ` set (gates (circuit s)) \<and> evaluate_gate g st = Inl e)
        | Inr (st, t, ch) \<Rightarrow>
            snd (run_simulation s) = Inr (final_outputs (circuit s) st)
            \<and> t = real (length wh) / 2 \<and> (\<not> ch \<or> t = 20)
            \<and> (\<not> ch \<longrightarrow> gate_pass (gates (circuit s)) st False = Inr (st, False)))"
proof -
  let ?gs = "gates (circuit s)"
  have post: "loop_post ?gs [] (wh, r)"
    using sim_loop_post [of 0 "[]" ?gs "inputs (circuit s)" True] assms by simp
  have ne: "1 \<le> length wh"
    using sim_loop_nonempty [of ?gs "inputs (circuit s)"] assms by simp
  have run: "run_simulation s =
      (s\<lparr>wave_history := wh\<rparr>,
       case r of Inl e \<Rightarrow> Inl e
       | Inr (st, t, ch) \<Rightarrow> Inr (final_outputs (circuit s) st))"
    by (simp add: run_simulation_def assms)
  have stable: "gate_pass ?gs st False = Inr (st, False)" if "r = Inr (st, t, False)" for st t
    using sim_loop_stable [of ?gs "inputs (circuit s)" "[]" 0 True st t] assms that by simp
  show ?thesis
  proof (cases r)
    case (Inl e)
    with post ne run show ?thesis by (simp add: loop_post_def)
  next
    case (Inr q)
    obtain st t ch where q: "q = (st, t, ch)" by (cases q)
    with Inr post ne run stable [of st t] show ?thesis
      by (auto simp: loop_post_def)
  qed
qed

text \<open>
  The ring circuit never settles: its run takes all 40 passes, ends with the flag still
  set and returns its outputs.
\<close>

lemma ring_never_settles:
  "sim_loop (gates (circuit \<lparr>circuit = ring_circuit, wave_history = []\<rparr>))
       (inputs (circuit \<lparr>circuit = ring_circuit, wave_history = []\<rparr>)) [] 0 True =
     (wave_history (fst (run_simulation \<lparr>circuit = ring_circuit, wave_history = []\<rparr>)),
      Inr ([(''X'', (0, 0)), (''Y'', (1, 0)), (''Z'', (0, 0))], 20, True))
   \<and> length (wave_history (fst (run_simulation \<lparr>circuit = ring_circuit, wave_history = []\<rparr>))) = 40
   \<and> snd (run_simulation \<lparr>circuit = ring_circuit, wave_history = []\<rparr>) = Inr [(''OUT'', (0, 0))]"
proof -
  let ?s = "\<lparr>circuit = ring_circuit, wave_history = []\<rparr>"
  let ?st = "[(''X'', (0, 0)), (''Y'', (1, 0)), (''Z'', (0, 0))] :: state"
  have w: "wave_history (fst (run_simulation ?s)) =
      fst (sim_loop (gates ring_circuit) (inputs ring_circuit) [] 0 True)"
    by (simp add: run_simulation_def Let_def case_prod_beta)
  have r: "snd (sim_loop (gates ring_circuit) (inputs ring_circuit) [] 0 True) =
      Inr (?st, 20, True)"
    by code_simp
  have h: "sim_loop (gates (circuit ?s)) (inputs (circuit ?s)) [] 0 True =
      (wave_history (fst (run_simulation ?s)), Inr (?st, 20, True))"
    unfolding w using r by (simp add: prod_eq_iff)
  have f: "final_outputs ring_circuit ?st = [(''OUT'', (0, 0))]"
    by code_simp
  from sim_loop_bounded [OF h] f h show ?thesis by simp
qed

text \<open>
  The loop raises only what a gate evaluation raises, and a gate evaluation raises only
  when a gate of fixed kind has fewer inputs than the kind takes. So a circuit without
  such a gate is simulated without an exception.
\<close>

lemma run_simulation_returns:
  assumes "\<forall>g \<in> snd ` set (gates (circuit s)).
             \<not> ((kind g = ''TH22'' \<or> kind g = ''TH12'') \<and> length (gate_inputs g) < 2
                \<or> kind g = ''TH23'' \<and> length (gate_inputs g) < 3)"
  shows "\<exists>outs. snd (run_simulation s) = Inr outs"
proof -
  let ?res = "sim_loop (gates (circuit s)) (inputs (circuit s)) [] 0 True"
  have post: "loop_post (gates (circuit s)) [] ?res"
    by (rule sim_loop_post) simp_all
  have "snd ?res \<noteq> Inl e" for e
  proof
    assume "snd ?res = Inl e"
    with post obtain g st where "g \<in> snd ` set (gates (circuit s))" "evaluate_gate g st = Inl e"
      by (force simp: loop_post_def Let_def)
    with assms show False unfolding evaluate_gate_error by blast
  qed
  then obtain q where "snd ?res = Inr q" by (cases "snd ?res") auto
  then show ?thesis
    by (simp add: run_simulation_def Let_def case_prod_beta)
qed

text \<open>
  Claim C1 does not hold of the source. A TH22 gate with an empty input list (what the
  gate form stores when its input field is left blank) makes the first pass call
  \<open>th22\<close> with no arguments: the run raises \<open>TypeError\<close> after its first snapshot and
  returns no output mapping.
\<close>

theorem run_simulation_raises:
  "run_simulation
     \<lparr>circuit = \<lparr>inputs = [],
                 gates = [(''G1'', \<lparr>gate_id = ''G1'', kind = ''TH22'', gate_inputs = [],
                                    delay = 1\<rparr>)],
                 outputs = []\<rparr>,
      wave_history = []\<rparr> =
   (\<lparr>circuit = \<lparr>inputs = [],
                 gates = [(''G1'', \<lparr>gate_id = ''G1'', kind = ''TH22'', gate_inputs = [],
                                    delay = 1\<rparr>)],
                 outputs = []\<rparr>,
      wave_history = [\<lparr>time = 0, signals = []\<rparr>]\<rparr>,
    Inl TypeError)"
  by code_simp

text \<open>
  Claim C3 does not hold of the source. On the circuit of claim C1 the loop is left by
  neither of the two stop conditions: the first pass raises \<open>TypeError\<close> before it
  completes, at time 0 and with the change flag set, and the run is reported as an
  error.
\<close>

theorem loop_left_by_exception:
  "sim_loop
     [(''G1'', \<lparr>gate_id = ''G1'', kind = ''TH22'', gate_inputs = [], delay = 1\<rparr>)]
     [] [] 0 True =
   ([\<lparr>time = 0, signals = []\<rparr>], Inl TypeError)
   \<and> gate_pass
       [(''G1'', \<lparr>gate_id = ''G1'', kind = ''TH22'', gate_inputs = [], delay = 1\<rparr>)]
       [] False = Inl TypeError"
  by code_simp

text \<open>
  Claim C5. The result of a run depends on the circuit only (the initial input values
  are part of it): two sessions holding the same circuit give equal timelines and equal
  final outputs, whatever timeline an earlier run left behind, and running again on the
  session that a run leaves gives the same result.
\<close>

theorem run_deterministic:
  assumes "circuit s1 = circuit s2"
  shows "snd (run_simulation s1) = snd (run_simulation s2)
     \<and> wave_history (fst (run_simulation s1)) = wave_history (fst (run_simulation s2))
     \<and> run_simulation (fst (run_simulation s1)) = run_simulation s1"
  using assms by (simp add: run_simulation_def Let_def case_prod_beta)

theorem run_deterministic_witness:
  "circuit \<lparr>circuit = example_circuit, wave_history = []\<rparr> =
     circuit (fst (run_simulation \<lparr>circuit = example_circuit, wave_history = []\<rparr>))
   \<and> snd (run_simulation \<lparr>circuit = example_circuit, wave_history = []\<rparr>) =
       snd (run_simulation (fst (run_simulation \<lparr>circuit = example_circuit, wave_history = []\<rparr>)))
   \<and> wave_history (fst (run_simulation \<lparr>circuit = example_circuit, wave_history = []\<rparr>)) =
       wave_history
         (fst (run_simulation (fst (run_simulation \<lparr>circuit = example_circuit, wave_history = []\<rparr>))))
   \<and> run_simulation (fst (run_simulation \<lparr>circuit = example_circuit, wave_history = []\<rparr>)) =
       run_simulation \<lparr>circuit = example_circuit, wave_history = []\<rparr>"
proof -
  have h: "circuit \<lparr>circuit = example_circuit, wave_history = []\<rparr> =
     circuit (fst (run_simulation \<lparr>circuit = example_circuit, wave_history = []\<rparr>))"
    by (simp add: run_simulation_def Let_def case_prod_beta)
  show ?thesis
    by (rule conjI [OF h run_deterministic [OF h]])
qed

section \<open>The example circuit\<close>

text \<open>
  Claim C8. On the example circuit (inputs \<open>A = (1,0)\<close> and \<open>B = (0,1)\<close>, \<open>G1\<close> a TH12 and
  \<open>G2\<close> a TH22 over \<open>A\<close> and \<open>B\<close>, output \<open>OUT\<close> mapped to \<open>G2\<close>) the run returns
  two snapshots, the second with \<open>G1 = G2 = (1,0)\<close>, the final output is
  \<open>OUT = (1,0)\<close>, and the loop ends at time 1 with the change flag cleared.
\<close>

theorem example_scenario:
  "run_simulation \<lparr>circuit = example_circuit, wave_history = wh0\<rparr> =
     (\<lparr>circuit = example_circuit,
       wave_history =
         [\<lparr>time = 0, signals = [(''A'', (1, 0)), (''B'', (0, 1))]\<rparr>,
          \<lparr>time = 1 / 2,
           signals = [(''A'', (1, 0)), (''B'', (0, 1)), (''G1'', (1, 0)), (''G2'', (1, 0))]\<rparr>]\<rparr>,
      Inr [(''OUT'', (1, 0))])
   \<and> snd (sim_loop (gates example_circuit) (inputs example_circuit) [] 0 True) =
       Inr ([(''A'', (1, 0)), (''B'', (0, 1)), (''G1'', (1, 0)), (''G2'', (1, 0))], 1, False)"
proof -
  have loop: "sim_loop (gates example_circuit) (inputs example_circuit) [] 0 True =
     ([\<lparr>time = 0, signals = [(''A'', (1, 0)), (''B'', (0, 1))]\<rparr>,
       \<lparr>time = 1 / 2,
        signals = [(''A'', (1, 0)), (''B'', (0, 1)), (''G1'', (1, 0)), (''G2'', (1, 0))]\<rparr>],
      Inr ([(''A'', (1, 0)), (''B'', (0, 1)), (''G1'', (1, 0)), (''G2'', (1, 0))], 1, False))"
    by code_simp
  have outs: "final_outputs example_circuit
      [(''A'', (1, 0)), (''B'', (0, 1)), (''G1'', (1, 0)), (''G2'', (1, 0))] = [(''OUT'', (1, 0))]"
    by code_simp
  show ?thesis
    by (simp add: run_simulation_def loop outs)
qed

section \<open>The gate form\<close>

lemma digit_char: "k < 10 \<Longrightarrow> is_digit (char_of (48 + k)) \<and> digit_val (char_of (48 + k)) = k"
  by (simp add: is_digit_def digit_val_def)

lemma str_nat_digits: "str_nat n \<noteq> [] \<and> (\<forall>c \<in> set (str_nat n). is_digit c)"
proof (induction n rule: str_nat.induct)
  case (1 n)
  show ?case
  proof (cases "n < 10")
    case True
    then show ?thesis by (subst (1 2) str_nat.simps) (simp add: digit_char)
  next
    case False
    with "1.IH" show ?thesis by (subst (1 2) str_nat.simps) (simp add: digit_char)
  qed
qed

lemma parse_digits_all:
  "ds \<noteq> [] \<Longrightarrow> \<forall>c \<in> set ds. is_digit c \<Longrightarrow>
     parse_digits acc ds = Some (foldl (\<lambda>a c. 10 * a + digit_val c) acc ds)"
  by (induction acc ds rule: parse_digits.induct) simp_all

lemma str_nat_value: "foldl (\<lambda>a c. 10 * a + digit_val c) 0 (str_nat n) = n"
proof (induction n rule: str_nat.induct)
  case (1 n)
  show ?case
  proof (cases "n < 10")
    case True
    then show ?thesis by (subst str_nat.simps) (simp add: digit_char)
  next
    case False
    with "1.IH" show ?thesis by (subst str_nat.simps) (simp add: digit_char)
  qed
qed

lemma parse_unsigned_str_nat: "parse_unsigned (str_nat n) = Some n"
proof -
  obtain c cs where s: "str_nat n = c # cs" using str_nat_digits [of n] by (cases "str_nat n") auto
  with str_nat_digits [of n] have "is_digit c" by simp
  with s parse_digits_all [of "str_nat n" 0] str_nat_digits [of n] str_nat_value [of n]
  show ?thesis by (simp add: parse_unsigned_def)
qed

lemma digit_plain:
  "is_digit c \<Longrightarrow> \<not> is_int_space c \<and> c \<noteq> CHR ''T'' \<and> c \<noteq> CHR ''-'' \<and> c \<noteq> CHR ''+''"
  by (auto simp: is_digit_def is_int_space_def Let_def)

lemma int_strip_plain:
  assumes "s \<noteq> []" and "\<not> is_int_space (hd s)" and "\<not> is_int_space (last s)"
  shows "int_strip s = s"
proof -
  from assms have a: "dropWhile is_int_space s = s" by (cases s) simp_all
  from assms have "dropWhile is_int_space (rev s) = rev s"
    by (cases "rev s") (simp_all add: last_rev [symmetric] del: last_rev)
  with a show ?thesis by (simp add: int_strip_def)
qed

lemma py_int_str_int: "py_int (str_int i) = Some i"
proof -
  define n where "n = nat \<bar>i\<bar>"
  obtain c cs where s: "str_nat n = c # cs"
    using str_nat_digits [of n] by (cases "str_nat n") auto
  have dc: "is_digit c" and dl: "is_digit (last (c # cs))"
    using str_nat_digits [of n] s last_in_set [of "c # cs"] by auto
  have pu: "parse_unsigned (c # cs) = Some n"
    using parse_unsigned_str_nat [of n] s by simp
  show ?thesis
  proof (cases "i < 0")
    case False
    then have si: "str_int i = c # cs" by (simp add: str_int_def n_def s [symmetric])
    have "int_strip (c # cs) = c # cs"
      using dc dl by (intro int_strip_plain) (simp_all add: digit_plain)
    with si pu dc False show ?thesis
      by (simp add: py_int_def digit_plain n_def)
  next
    case True
    then have si: "str_int i = CHR ''-'' # c # cs"
      by (simp add: str_int_def n_def s [symmetric])
    have hy: "\<not> is_int_space CHR ''-''" by (simp add: is_int_space_def)
    have nl: "\<not> is_int_space (last (CHR ''-'' # c # cs))"
      using dl digit_plain [of "last (c # cs)"] by simp
    have "int_strip (CHR ''-'' # c # cs) = CHR ''-'' # c # cs"
      using hy nl by (intro int_strip_plain) simp_all
    with si pu True show ?thesis
      by (simp add: py_int_def n_def)
  qed
qed

lemma custom_kind_parses:
  "startswith (''THm'' @ str_int i) ''THm''
   \<and> py_int (remove_THm (''THm'' @ str_int i)) = Some i"
proof -
  have "CHR ''T'' \<notin> set (str_int i)"
    using str_nat_digits [of "nat (- i)"] str_nat_digits [of "nat i"]
    by (auto simp: str_int_def dest: digit_plain)
  then have "remove_THm (str_int i) = str_int i" by (rule remove_THm_plain)
  then show ?thesis by (simp add: startswith_def py_int_str_int)
qed

text \<open>
  The form offers the thresholds 1 to 8. For these the stored custom kind is parsed
  back to the threshold by the call that the gate evaluation makes.
\<close>

lemma form_kind_threshold:
  assumes "1 \<le> m" and "m \<le> 8"
  shows "py_int_bounded (remove_THm (''THm'' @ str_int m)) = Some m"
proof -
  from assms have "nat m < 10" by simp
  then have "str_nat (nat m) = [char_of (48 + nat m)]"
    by (subst str_nat.simps) simp
  with assms have "str_int m = [char_of (48 + nat m)]"
    by (simp add: str_int_def)
  then have "length (filter is_digit (remove_THm (''THm'' @ str_int m))) \<le> 1"
    by simp
  then have "\<not> max_str_digits < length (filter is_digit (remove_THm (''THm'' @ str_int m)))"
    by (simp add: max_str_digits_def)
  with custom_kind_parses [of m] show ?thesis
    by (simp add: py_int_bounded_def)
qed

text \<open>
  Claim C6, as stated, fails. The gate form accepts a TH22 gate with no inputs: the
  gate is stored, nothing is checked and nothing fails.
\<close>

theorem add_gate_counterexample:
  "map_of (gates (circuit (add_gate ''TH22'' ''G1'' 2 '''' 1 empty_session))) ''G1'' =
     Some \<lparr>gate_id = ''G1'', kind = ''TH22'', gate_inputs = [], delay = 1\<rparr>"
  by code_simp

text \<open>
  Claim C6, amended. Adding a gate validates nothing and never fails. For every kind
  selection, gate id, threshold, input text and delay it stores the gate under its id,
  overwriting a gate of that id and leaving every other gate, the inputs, the outputs
  and the timeline as they were. The stored kind is \<open>THm\<close> followed by the threshold
  for the custom kind, which parses back to that threshold, and the selected kind
  otherwise; the stored inputs are the comma-separated names, trimmed, without the
  blank ones.
\<close>

theorem add_gate_stores:
  "map_of (gates (circuit (add_gate gkind gid m inputs_raw gdelay s))) gid =
     Some \<lparr>gate_id = gid,
           kind = (if gkind = ''CUSTOM - THmn'' then ''THm'' @ str_int m else gkind),
           gate_inputs = map strip (filter (\<lambda>x. strip x \<noteq> []) (split_comma inputs_raw)),
           delay = gdelay\<rparr>
   \<and> (\<forall>k. k \<noteq> gid \<longrightarrow>
        map_of (gates (circuit (add_gate gkind gid m inputs_raw gdelay s))) k =
          map_of (gates (circuit s)) k)
   \<and> inputs (circuit (add_gate gkind gid m inputs_raw gdelay s)) = inputs (circuit s)
   \<and> outputs (circuit (add_gate gkind gid m inputs_raw gdelay s)) = outputs (circuit s)
   \<and> wave_history (add_gate gkind gid m inputs_raw gdelay s) = wave_history s
   \<and> startswith (''THm'' @ str_int m) ''THm''
   \<and> py_int (remove_THm (''THm'' @ str_int m)) = Some m"
  using custom_kind_parses [of m]
  by (simp add: add_gate_def Let_def update_conv' format_m_def startswith_def)

theorem add_gate_stores_witness:
  "''G2'' \<noteq> ''G1''
   \<and> map_of (gates (circuit (add_gate ''CUSTOM - THmn'' ''G1'' 3 '' A, B ,,C'' 2
        \<lparr>circuit = example_circuit, wave_history = []\<rparr>))) ''G1'' =
       Some \<lparr>gate_id = ''G1'', kind = ''THm3'', gate_inputs = [''A'', ''B'', ''C''], delay = 2\<rparr>
   \<and> map_of (gates (circuit (add_gate ''CUSTOM - THmn'' ''G1'' 3 '' A, B ,,C'' 2
        \<lparr>circuit = example_circuit, wave_history = []\<rparr>))) ''G2'' =
       Some \<lparr>gate_id = ''G2'', kind = ''TH22'', gate_inputs = [''A'', ''B''], delay = 12 / 10\<rparr>"
proof -
  let ?s = "\<lparr>circuit = example_circuit, wave_history = []\<rparr>"
  note t = add_gate_stores [of "''CUSTOM - THmn''" "''G1''" 3 "'' A, B ,,C''" 2 ?s]
  have h: "''G2'' \<noteq> ''G1''" by simp
  have k: "(if ''CUSTOM - THmn'' = ''CUSTOM - THmn'' then ''THm'' @ str_int 3 else ''CUSTOM - THmn'')
             = ''THm3''" by code_simp
  have i: "map strip (filter (\<lambda>x. strip x \<noteq> []) (split_comma '' A, B ,,C'')) = [''A'', ''B'', ''C'']"
    by code_simp
  have o: "map_of (gates (circuit ?s)) ''G2'' =
       Some \<lparr>gate_id = ''G2'', kind = ''TH22'', gate_inputs = [''A'', ''B''], delay = 12 / 10\<rparr>"
    by (simp add: example_circuit_def)
  have "map_of (gates (circuit (add_gate ''CUSTOM - THmn'' ''G1'' 3 '' A, B ,,C'' 2 ?s))) ''G1'' =
     Some \<lparr>gate_id = ''G1'',
           kind = (if ''CUSTOM - THmn'' = ''CUSTOM - THmn'' then ''THm'' @ str_int 3 else ''CUSTOM - THmn''),
           gate_inputs = map strip (filter (\<lambda>x. strip x \<noteq> []) (split_comma '' A, B ,,C'')),
           delay = 2\<rparr>"
    by (rule t [THEN conjunct1])
  then have c1: "map_of (gates (circuit (add_gate ''CUSTOM - THmn'' ''G1'' 3 '' A, B ,,C'' 2 ?s))) ''G1'' =
       Some \<lparr>gate_id = ''G1'', kind = ''THm3'', gate_inputs = [''A'', ''B'', ''C''], delay = 2\<rparr>"
    by (simp only: k i)
  have "map_of (gates (circuit (add_gate ''CUSTOM - THmn'' ''G1'' 3 '' A, B ,,C'' 2 ?s))) ''G2'' =
      map_of (gates (circuit ?s)) ''G2''"
    by (rule t [THEN conjunct2, THEN conjunct1, rule_format, OF h])
  then have c2: "map_of (gates (circuit (add_gate ''CUSTOM - THmn'' ''G1'' 3 '' A, B ,,C'' 2 ?s))) ''G2'' =
       Some \<lparr>gate_id = ''G2'', kind = ''TH22'', gate_inputs = [''A'', ''B''], delay = 12 / 10\<rparr>"
    by (simp only: o)
  show ?thesis
    by (intro conjI) (rule h c1 c2)+
qed

end
